theory Spec2Isabelle
  imports
    Complex_Main
    "HOL-Library.Word"
    "HOL-Library.Char_ord"
    "HOL-Library.List_Lexorder"
    "HOL-Library.Multiset"
begin

section \<open>Data model of \<^verbatim>\<open>inference_once.py\<close>\<close>

text \<open>
  The script reads every image of a directory, prepares two tensors for a segmentation model,
  asks the model for masks and writes three PNG files per image. Arrays are nested lists in
  the layout the code uses: a NumPy image is height x width x channel, a torch tensor is
  channel x height x width. Exceptions are values of \<open>error\<close>; a function that can raise
  returns \<open>error + 'a\<close> with the exception on the left.
\<close>

datatype error =
    Cv2Error              \<comment> \<open>\<^verbatim>\<open>cv2.cvtColor\<close> on the \<^verbatim>\<open>None\<close> that \<^verbatim>\<open>cv2.imread\<close> returns for an unreadable file\<close>
  | RuntimeError          \<comment> \<open>torch: shapes that do not broadcast, padding below size zero\<close>
  | AssertionError string \<comment> \<open>the \<^verbatim>\<open>assert\<close> of line 279\<close>
  | IndexError            \<comment> \<open>NumPy and torch indexing out of range\<close>
  | ValueError            \<comment> \<open>NumPy operands that do not broadcast\<close>
  | InvalidImageError     \<comment> \<open>the specification's failure of the geometric transform\<close>
  | ExternalError string  \<comment> \<open>anything raised inside a collaborator that is not in this file\<close>

type_synonym uint8 = "8 word"
type_synonym pixel = "uint8 \<times> uint8 \<times> uint8"
type_synonym image = "pixel list list"
type_synonym 'a tensor = "'a list list list"

text \<open>\<^verbatim>\<open>a.shape[:2]\<close> of a height x width (x channel) array with at least one row.\<close>

definition shape2 :: "'a list list \<Rightarrow> nat \<times> nat" where
  "shape2 a = (length a, case a of [] \<Rightarrow> 0 | r # _ \<Rightarrow> length r)"

text \<open>\<^verbatim>\<open>x.shape[-2:]\<close> of a channel-first tensor with at least one channel.\<close>

definition spatial_shape :: "'a tensor \<Rightarrow> nat \<times> nat" where
  "spatial_shape x = (case x of [] \<Rightarrow> (0, 0) | ch # _ \<Rightarrow> shape2 ch)"

text \<open>Rectangular arrays: every row of a 2-D array has \<open>w\<close> entries, every channel of a
  tensor is an \<open>h\<close> x \<open>w\<close> array.\<close>

definition is_array2 :: "'a list list \<Rightarrow> nat \<Rightarrow> nat \<Rightarrow> bool" where
  "is_array2 a h w = (length a = h \<and> list_all (\<lambda>r. length r = w) a)"

definition is_tensor :: "'a tensor \<Rightarrow> nat \<Rightarrow> nat \<Rightarrow> nat \<Rightarrow> bool" where
  "is_tensor x c h w = (length x = c \<and> list_all (\<lambda>ch. is_array2 ch h w) x)"

section \<open>\<^verbatim>\<open>preprocess\<close> (lines 52-66)\<close>

text \<open>
  \<^verbatim>\<open>x - pixel_mean\<close> and \<^verbatim>\<open>... / pixel_std\<close> combine a tensor of shape (C, H, W) with
  constants of shape (M, 1, 1). Broadcasting pairs the channels when \<open>C = M\<close>, repeats the one
  constant when \<open>M = 1\<close>, repeats the one channel when \<open>C = 1\<close>, and raises otherwise.
\<close>

definition broadcast_channels ::
  "('a \<Rightarrow> 'a \<Rightarrow> 'a) \<Rightarrow> 'a tensor \<Rightarrow> 'a list \<Rightarrow> error + 'a tensor" where
  "broadcast_channels f x ks =
     (if length x = length ks then Inr (map2 (\<lambda>ch k. map (map (\<lambda>v. f v k)) ch) x ks)
      else if length ks = 1 then Inr (map (map (map (\<lambda>v. f v (hd ks)))) x)
      else if length x = 1 then Inr (map (\<lambda>k. map (map (\<lambda>v. f v k)) (hd x)) ks)
      else Inl RuntimeError)"

text \<open>
  One dimension of \<^verbatim>\<open>F.pad\<close> with nothing in front and \<open>p\<close> behind: a non-negative \<open>p\<close>
  appends \<open>p\<close> copies of the fill value, a negative \<open>p\<close> removes \<open>-p\<close> entries from the end.
\<close>

definition pad_end :: "int \<Rightarrow> 'a \<Rightarrow> 'a list \<Rightarrow> 'a list" where
  "pad_end p z xs =
     (if 0 \<le> p then xs @ replicate (nat p) z else take (nat (int (length xs) + p)) xs)"

text \<open>
  \<^verbatim>\<open>F.pad(x, (0, padw, 0, padh))\<close>: constant mode, fill value zero; the last dimension gets
  \<open>padw\<close> on the right, the one before it \<open>padh\<close> at the bottom. torch raises when a
  dimension would become negative.
\<close>

definition F_pad :: "'a::zero tensor \<Rightarrow> int \<Rightarrow> int \<Rightarrow> error + 'a tensor" where
  "F_pad x padw padh =
     (let (h, w) = spatial_shape x in
      if int h + padh < 0 \<or> int w + padw < 0 then Inl RuntimeError
      else Inr (map (\<lambda>ch. pad_end padh (replicate (nat (int w + padw)) 0)
                               (map (pad_end padw 0) ch)) x))"

definition preprocess ::
  "'a::{minus,inverse,zero} tensor \<Rightarrow> 'a list \<Rightarrow> 'a list \<Rightarrow> int \<Rightarrow> error + 'a tensor" where
  "preprocess x pixel_mean pixel_std img_size =
     (case broadcast_channels (-) x pixel_mean of
        Inl e \<Rightarrow> Inl e
      | Inr x1 \<Rightarrow>
     (case broadcast_channels (/) x1 pixel_std of
        Inl e \<Rightarrow> Inl e
      | Inr x2 \<Rightarrow>
     (let (h, w) = spatial_shape x2;
          padh = img_size - int h;
          padw = img_size - int w
      in F_pad x2 padw padh)))"


text \<open>The tensor after both broadcasts when the channels pair up with the constants.\<close>

definition normalized :: "'a::{minus,inverse,zero} tensor \<Rightarrow> 'a list \<Rightarrow> 'a list \<Rightarrow> 'a tensor" where
  "normalized x m s = map (\<lambda>k. map (map (\<lambda>v. (v - m ! k) / s ! k)) (x ! k)) [0..<length x]"

section \<open>The call site of \<^verbatim>\<open>preprocess\<close> (lines 258-262)\<close>

text \<open>
  The defaults of lines 54-56. float32 values are modelled by exact rationals; the claims
  below are about shapes and about which entry holds which expression, not about rounding.
\<close>

definition pixel_mean :: "rat list" where
  "pixel_mean = [123.675, 116.28, 103.53]"

definition pixel_std :: "rat list" where
  "pixel_std = [58.395, 57.12, 57.375]"

definition default_img_size :: int where
  "default_img_size = 1024"

text \<open>\<^verbatim>\<open>torch.from_numpy(image).permute(2, 0, 1)\<close>: height x width x 3 becomes 3 x height x width.\<close>

definition from_numpy_permute :: "image \<Rightarrow> rat tensor" where
  "from_numpy_permute img =
     [map (map (\<lambda>(c0, c1, c2). of_nat (unat c0))) img,
      map (map (\<lambda>(c0, c1, c2). of_nat (unat c1))) img,
      map (map (\<lambda>(c0, c1, c2). of_nat (unat c2))) img]"

text \<open>The call passes the tensor only, so all three keyword parameters keep their defaults.\<close>

definition sam_input :: "image \<Rightarrow> error + rat tensor" where
  "sam_input img = preprocess (from_numpy_permute img) pixel_mean pixel_std default_img_size"

definition sam_tensor :: "image \<Rightarrow> rat tensor" where
  "sam_tensor img =
     (let x = normalized (from_numpy_permute img) pixel_mean pixel_std;
          (h, w) = spatial_shape x
      in map (\<lambda>ch. pad_end (default_img_size - int h) (replicate (nat default_img_size) 0)
                       (map (pad_end (default_img_size - int w) 0) ch)) x)"

section \<open>Masks and compositing (lines 281-302)\<close>

text \<open>\<^verbatim>\<open>cv2.cvtColor\<close> with \<^verbatim>\<open>COLOR_BGR2RGB\<close> or \<^verbatim>\<open>COLOR_RGB2BGR\<close>: both exchange the first
  and the third channel.\<close>

definition cvtColor :: "image \<Rightarrow> image" where
  "cvtColor img = map (map (\<lambda>(c0, c1, c2). (c2, c1, c0))) img"

text \<open>
  The mask of an image is one of two NumPy arrays of different element type: the zeros of
  line 282 are \<^verbatim>\<open>uint8\<close>, the comparison of line 285 gives \<^verbatim>\<open>bool\<close>. NumPy indexes by a
  \<^verbatim>\<open>bool\<close> array element by element and by an integer array row by row, so the element
  type is part of the value.
\<close>

datatype mask = BoolMask "bool list list" | Uint8Mask "uint8 list list"

definition np_zeros :: "nat \<Rightarrow> nat \<Rightarrow> uint8 list list" where
  "np_zeros h w = replicate h (replicate w 0)"

text \<open>Scores are finite floats, modelled as rationals. \<^verbatim>\<open>pred_mask > 0\<close> (line 285).\<close>

definition greater_zero :: "rat list list \<Rightarrow> bool list list" where
  "greater_zero pm = map (map (\<lambda>score. 0 < score)) pm"

text \<open>
  Lines 281-285. \<open>pred_masks\<close> is a list of tensors of shape (N, H, W);
  \<^verbatim>\<open>pred_masks[0]...numpy()[0]\<close> takes the first slice of the first one and raises when it
  has none.
\<close>

definition select_mask :: "image \<Rightarrow> rat tensor list \<Rightarrow> error + mask" where
  "select_mask image_np pred_masks =
     (if length pred_masks = 0
      then Inr (Uint8Mask (np_zeros (fst (shape2 image_np)) (snd (shape2 image_np))))
      else (case hd pred_masks of
              [] \<Rightarrow> Inl IndexError
            | pm # _ \<Rightarrow> Inr (BoolMask (greater_zero pm))))"

text \<open>
  \<^verbatim>\<open>pred_mask * 255\<close> (line 292): \<^verbatim>\<open>True\<close> counts as 1; a \<^verbatim>\<open>uint8\<close> array stays
  \<^verbatim>\<open>uint8\<close> and wraps.
\<close>

fun times_255 :: "mask \<Rightarrow> uint8 list list" where
  "times_255 (BoolMask m) = map (map (\<lambda>b. if b then 255 else 0)) m"
| "times_255 (Uint8Mask m) = map (map (\<lambda>v. v * 255)) m"

text \<open>\<^verbatim>\<open>pred_mask[:, :, None].astype(np.uint8)\<close>, read as numbers.\<close>

fun mask_values :: "mask \<Rightarrow> rat list list" where
  "mask_values (BoolMask m) = map (map (\<lambda>b. if b then 1 else 0)) m"
| "mask_values (Uint8Mask m) = map (map (\<lambda>v. of_nat (unat v))) m"

text \<open>
  One pixel of \<^verbatim>\<open>image_np * 0.5 + mask * np.array([255, 0, 0]) * 0.5\<close> (lines 298-299), a
  float64 value; halves of integers are exact in float64.
\<close>

definition blend :: "pixel \<Rightarrow> rat \<Rightarrow> rat \<times> rat \<times> rat" where
  "blend p v =
     (case p of (c0, c1, c2) \<Rightarrow>
        (of_nat (unat c0) * 0.5 + v * 255 * 0.5,
         of_nat (unat c1) * 0.5 + v * 0 * 0.5,
         of_nat (unat c2) * 0.5 + v * 0 * 0.5))"

definition blended :: "image \<Rightarrow> rat list list \<Rightarrow> (rat \<times> rat \<times> rat) list list" where
  "blended image_np vs = map2 (\<lambda>row vrow. map2 blend row vrow) image_np vs"

text \<open>
  Storing a float64 into the \<^verbatim>\<open>uint8\<close> array \<^verbatim>\<open>save_img\<close> drops the fraction. Every value
  the loop stores lies in 0..255; beyond that the model wraps.
\<close>

definition astype_uint8 :: "rat \<Rightarrow> uint8" where
  "astype_uint8 q = word_of_int \<lfloor>q\<rfloor>"

definition store_pixel :: "rat \<times> rat \<times> rat \<Rightarrow> pixel" where
  "store_pixel q = (case q of (q0, q1, q2) \<Rightarrow> (astype_uint8 q0, astype_uint8 q1, astype_uint8 q2))"

definition broadcastable :: "nat \<Rightarrow> nat \<Rightarrow> bool" where
  "broadcastable a b = (a = b \<or> a = 1 \<or> b = 1)"

text \<open>
  Lines 296-300: \<^verbatim>\<open>save_img = image_np.copy(); save_img[pred_mask] = (...)[pred_mask]\<close>.

  With a \<^verbatim>\<open>bool\<close> mask the assignment is element-wise: the pixels at \<^verbatim>\<open>True\<close> positions
  are replaced. The mask must have the image's height and width: other shapes raise
  \<^verbatim>\<open>ValueError\<close> in the sum when they do not broadcast and \<^verbatim>\<open>IndexError\<close> in the
  indexing when they do.

  With a \<^verbatim>\<open>uint8\<close> mask both indexings are integer-array indexings along the first axis:
  every entry \<open>v\<close> of the mask names row \<open>v\<close>, and row \<open>v\<close> of \<^verbatim>\<open>save_img\<close> is replaced
  by row \<open>v\<close> of the blended array; an entry that is not a row number raises
  \<^verbatim>\<open>IndexError\<close>. The loop builds such a mask only with the image's own shape (line 282);
  the model covers that shape and reports any other as \<^verbatim>\<open>ValueError\<close>.
\<close>

fun composite :: "image \<Rightarrow> mask \<Rightarrow> error + image" where
  "composite image_np (BoolMask m) =
     (if \<not> (broadcastable (fst (shape2 image_np)) (fst (shape2 m))
             \<and> broadcastable (snd (shape2 image_np)) (snd (shape2 m)))
      then Inl ValueError
      else if shape2 m \<noteq> shape2 image_np then Inl IndexError
      else Inr (map2 (\<lambda>(row, brow) mrow.
                   map2 (\<lambda>(p, q) b. if b then store_pixel q else p) (zip row brow) mrow)
                  (zip image_np (blended image_np (mask_values (BoolMask m)))) m))"
| "composite image_np (Uint8Mask m) =
     (if shape2 m \<noteq> shape2 image_np then Inl ValueError
      else if \<exists>v \<in> set (concat m). length image_np \<le> unat v then Inl IndexError
      else Inr (map (\<lambda>i. if i \<in> unat ` set (concat m)
                          then map store_pixel (blended image_np (mask_values (Uint8Mask m)) ! i)
                          else image_np ! i)
                  [0..<length image_np]))"

section \<open>The loop over the images (lines 117-131 and 233-303)\<close>

text \<open>
  The collaborators that are not in this file, as parameters: \<^verbatim>\<open>cv2.imread\<close> (\<open>None\<close> for a
  file it cannot read), the CLIP image processor, \<^verbatim>\<open>ResizeLongestSide(size).apply_image\<close>
  and \<^verbatim>\<open>model.evaluate\<close>, which receives the two tensors, the resized shape and the
  original shape and returns the predicted masks. Each may raise. The casts to the configured
  precision and the move to the device (lines 246-268) belong to the float representation and
  are left to \<open>evaluate\<close>.
\<close>

record 'clip collaborators =
  imread :: "string \<Rightarrow> image option"
  clip_preprocess :: "image \<Rightarrow> error + 'clip"
  apply_image :: "int \<Rightarrow> image \<Rightarrow> error + image"
  evaluate :: "'clip \<Rightarrow> rat tensor \<Rightarrow> (nat \<times> nat) list \<Rightarrow> (nat \<times> nat) list
                 \<Rightarrow> error + rat tensor list"

record args =
  image_size :: int
  input_dir :: string
  output_dir :: string

text \<open>What \<^verbatim>\<open>cv2.imwrite\<close> receives; the files written so far, oldest first.\<close>

datatype artifact = Color image | Gray "uint8 list list"

type_synonym files = "(string \<times> artifact) list"

text \<open>
  An array without rows or without columns. OpenCV refuses it: \<^verbatim>\<open>cv2.cvtColor\<close> and
  \<^verbatim>\<open>cv2.imwrite\<close> raise \<^verbatim>\<open>cv2.error\<close> on an empty array.
\<close>

definition empty_array :: "'a list list \<Rightarrow> bool" where
  "empty_array arr = (fst (shape2 arr) = 0 \<or> snd (shape2 arr) = 0)"

fun empty_artifact :: "artifact \<Rightarrow> bool" where
  "empty_artifact (Color img) = empty_array img"
| "empty_artifact (Gray g) = empty_array g"

definition imwrite :: "files \<Rightarrow> string \<Rightarrow> artifact \<Rightarrow> error + files" where
  "imwrite fs save_path art =
     (if empty_artifact art then Inl Cv2Error else Inr (fs @ [(save_path, art)]))"

text \<open>\<^verbatim>\<open>os.path.join\<close> of two components.\<close>

definition os_path_join :: "string \<Rightarrow> string \<Rightarrow> string" where
  "os_path_join a b =
     (if b \<noteq> [] \<and> hd b = CHR ''/'' then b
      else if a = [] \<or> last a = CHR ''/'' then a @ b
      else a @ ''/'' @ b)"

text \<open>Lines 120-121; \<open>listing\<close> is what \<^verbatim>\<open>os.listdir\<close> returns, in the order it returns it.\<close>

definition img_paths :: "string \<Rightarrow> string list \<Rightarrow> string list" where
  "img_paths dir listing = sort (map (os_path_join dir) listing)"

text \<open>
  Lines 234-235: the part after the last slash, up to its last dot; \<^verbatim>\<open>rfind\<close> gives -1
  when there is no dot, and the slice then drops the last character.
\<close>

definition image_name_of :: "string \<Rightarrow> string" where
  "image_name_of image_path =
     (let n = rev (takeWhile (\<lambda>c. c \<noteq> CHR ''/'') (rev image_path))
      in if CHR ''.'' \<in> set n
         then rev (tl (dropWhile (\<lambda>c. c \<noteq> CHR ''.'') (rev n)))
         else butlast n)"

text \<open>
  Lines 237-278: from the file to the answer of the model. Nothing is written here.
  \<^verbatim>\<open>cv2.cvtColor\<close> of line 238 raises on the \<open>None\<close> of an unreadable file and on an
  empty array.
\<close>

definition run_model ::
  "'clip collaborators \<Rightarrow> args \<Rightarrow> string \<Rightarrow> error + image \<times> rat tensor list" where
  "run_model env a image_path =
     (case imread env image_path of
        None \<Rightarrow> Inl Cv2Error
      | Some image_src \<Rightarrow>
     if empty_array image_src then Inl Cv2Error
     else
     (let image_np = cvtColor image_src;
          original_size_list = [shape2 image_np]
      in case clip_preprocess env image_np of
        Inl e \<Rightarrow> Inl e
      | Inr image_clip \<Rightarrow>
     (case apply_image env (image_size a) image_np of
        Inl e \<Rightarrow> Inl e
      | Inr img \<Rightarrow>
     (let resize_list = [shape2 img]
      in case sam_input img of
        Inl e \<Rightarrow> Inl e
      | Inr x \<Rightarrow>
     (case evaluate env image_clip x resize_list original_size_list of
        Inl e \<Rightarrow> Inl e
      | Inr pred_masks \<Rightarrow> Inr (image_np, pred_masks))))))"

definition assert_message :: "string \<Rightarrow> string" where
  "assert_message image_name = ''image_name: '' @ image_name @ '' has more than one mask.''"

text \<open>
  One pass of the loop body, lines 234-303: the files before, the files after, and the
  exception that ended the pass, if any. The three writes are lines 288, 292 and 302; the
  conversion of line 301 raises on the same arrays as the write after it and is covered by it.
\<close>

definition process_image ::
  "'clip collaborators \<Rightarrow> args \<Rightarrow> files \<Rightarrow> string \<Rightarrow> files \<times> error option" where
  "process_image env a fs image_path =
     (let image_name = image_name_of image_path;
          img_out_dir = os_path_join (output_dir a) ''images'';
          mask_out_dir = os_path_join (output_dir a) ''masks'';
          vis_out_dir = os_path_join (output_dir a) ''vis''
      in case run_model env a image_path of
        Inl e \<Rightarrow> (fs, Some e)
      | Inr (image_np, pred_masks) \<Rightarrow>
          if \<not> length pred_masks \<le> 1
          then (fs, Some (AssertionError (assert_message image_name)))
          else (case select_mask image_np pred_masks of
             Inl e \<Rightarrow> (fs, Some e)
           | Inr pred_mask \<Rightarrow>
          (case imwrite fs (img_out_dir @ ''/'' @ image_name @ ''.png'') (Color image_np) of
             Inl e \<Rightarrow> (fs, Some e)
           | Inr fs1 \<Rightarrow>
          (case imwrite fs1 (mask_out_dir @ ''/'' @ image_name @ ''.png'')
                  (Gray (times_255 pred_mask)) of
             Inl e \<Rightarrow> (fs1, Some e)
           | Inr fs2 \<Rightarrow>
          (case composite image_np pred_mask of
             Inl e \<Rightarrow> (fs2, Some e)
           | Inr save_img \<Rightarrow>
          (case imwrite fs2 (vis_out_dir @ ''/'' @ image_name @ ''.png'')
                  (Color (cvtColor save_img)) of
             Inl e \<Rightarrow> (fs2, Some e)
           | Inr fs3 \<Rightarrow> (fs3, None)))))))"

text \<open>
  The \<^verbatim>\<open>for\<close> loop of line 233. The body has no \<^verbatim>\<open>try\<close>, so an exception leaves the
  loop and ends the program.
\<close>

fun main_loop ::
  "'clip collaborators \<Rightarrow> args \<Rightarrow> files \<Rightarrow> string list \<Rightarrow> files \<times> error option" where
  "main_loop env a fs [] = (fs, None)"
| "main_loop env a fs (image_path # rest) =
     (case process_image env a fs image_path of
        (fs', Some e) \<Rightarrow> (fs', Some e)
      | (fs', None) \<Rightarrow> main_loop env a fs' rest)"

definition main :: "'clip collaborators \<Rightarrow> args \<Rightarrow> string list \<Rightarrow> files \<times> error option" where
  "main env a listing = main_loop env a [] (img_paths (input_dir a) listing)"

section \<open>The geometric transform\<close>

text \<open>
  Modelled from the spec: \<^verbatim>\<open>ResizeLongestSide\<close> lives in
  \<^verbatim>\<open>model/segment_anything/utils/transforms.py\<close>, which is not among the sources. The
  specification gives the scale \<open>s = T / max(height, width)\<close>, has both dimensions resized by
  \<open>s\<close>, calls the result floor- or round-consistent, and makes an image without height or
  width an \<open>InvalidImageError\<close>. Both roundings are modelled.
\<close>

datatype rounding = RoundDown | RoundNearest

fun to_pixels :: "rounding \<Rightarrow> rat \<Rightarrow> nat" where
  "to_pixels RoundDown q = nat \<lfloor>q\<rfloor>"
| "to_pixels RoundNearest q = nat \<lfloor>q + 1 / 2\<rfloor>"

definition scale_factor :: "nat \<Rightarrow> nat \<Rightarrow> nat \<Rightarrow> rat" where
  "scale_factor T height width = of_nat T / of_nat (max height width)"

definition resized_shape :: "rounding \<Rightarrow> nat \<Rightarrow> nat \<Rightarrow> nat \<Rightarrow> error + nat \<times> nat" where
  "resized_shape rnd T height width =
     (if height = 0 \<or> width = 0 then Inl InvalidImageError
      else Inr (to_pixels rnd (of_nat height * scale_factor T height width),
                to_pixels rnd (of_nat width * scale_factor T height width)))"

section \<open>Concrete inputs\<close>

text \<open>
  A two-row image as \<^verbatim>\<open>cv2.imread\<close> returns it (channel order blue, green, red), a model
  that finds no region, and collaborators that leave the image as it is.
\<close>

definition demo_image :: image where
  "demo_image = [[(30, 20, 10)], [(7, 7, 7)]]"

definition demo_env :: "unit collaborators" where
  "demo_env = \<lparr>imread = (\<lambda>_. Some demo_image), clip_preprocess = (\<lambda>_. Inr ()),
     apply_image = (\<lambda>_ img. Inr img), evaluate = (\<lambda>_ _ _ _. Inr [])\<rparr>"

definition demo_args :: args where
  "demo_args = \<lparr>image_size = 1024, input_dir = ''in'', output_dir = ''out''\<rparr>"

text \<open>
  A directory of two images: \<^verbatim>\<open>a.jpg\<close> is one pixel, and the model raises on it;
  \<^verbatim>\<open>b.jpg\<close> is two pixels wide, and the model finds no region in it.
\<close>

definition two_env :: "unit collaborators" where
  "two_env = \<lparr>imread = (\<lambda>p. if p = ''in/a.jpg'' then Some [[(1, 2, 3)]]
                              else Some [[(2, 4, 6), (8, 10, 12)]]),
     clip_preprocess = (\<lambda>_. Inr ()),
     apply_image = (\<lambda>_ img. Inr img),
     evaluate = (\<lambda>_ _ _ original_size_list.
                   if original_size_list = [(1, 1)] then Inl (ExternalError ''model'')
                   else Inr [])\<rparr>"


text \<open>
  The first collaborators with a model that keeps its contract on the original size: it
  answers with one mask of the height and width it is given, every score being 1.
\<close>

definition sized_env :: "unit collaborators" where
  "sized_env = demo_env\<lparr>evaluate := (\<lambda>_ _ _ original_size_list.
     Inr [[replicate (fst (hd original_size_list))
             (replicate (snd (hd original_size_list)) 1)]])\<rparr>"

section \<open>Properties of \<^verbatim>\<open>preprocess\<close>\<close>

lemma length_pad_end:
  "0 \<le> int (length xs) + p \<Longrightarrow> length (pad_end p z xs) = nat (int (length xs) + p)"
  by (auto simp: pad_end_def nat_add_distrib)

lemma nth_pad_end:
  "i < nat (int (length xs) + p) \<Longrightarrow>
   pad_end p z xs ! i = (if i < length xs then xs ! i else z)"
  by (auto simp: pad_end_def nth_append)

lemma set_pad_end: "set (pad_end p z xs) \<subseteq> insert z (set xs)"
  by (auto simp: pad_end_def dest: in_set_takeD)

lemma is_array2_pad:
  assumes "is_array2 a h w" "0 \<le> int h + padh" "0 \<le> int w + padw"
  shows "is_array2 (pad_end padh (replicate (nat (int w + padw)) z) (map (pad_end padw z) a))
           (nat (int h + padh)) (nat (int w + padw))"
proof -
  let ?rows = "map (pad_end padw z) a"
  have len: "length ?rows = h" using assms(1) by (simp add: is_array2_def)
  have rows: "\<forall>r\<in>set ?rows. length r = nat (int w + padw)"
    using assms(1,3) by (auto simp: is_array2_def list_all_iff length_pad_end)
  have "\<forall>r\<in>set (pad_end padh (replicate (nat (int w + padw)) z) ?rows).
          length r = nat (int w + padw)"
    using rows set_pad_end [of padh "replicate (nat (int w + padw)) z" ?rows] by auto
  then show ?thesis
    using len assms(2) by (simp add: is_array2_def list_all_iff length_pad_end)
qed

lemma nth_array2_pad:
  assumes "is_array2 a h w" "i < nat (int h + padh)" "j < nat (int w + padw)"
  shows "pad_end padh (replicate (nat (int w + padw)) z) (map (pad_end padw z) a) ! i ! j
           = (if i < h \<and> j < w then a ! i ! j else z)"
proof -
  have len: "length (map (pad_end padw z) a) = h" using assms(1) by (simp add: is_array2_def)
  show ?thesis
  proof (cases "i < h")
    case True
    then have "length (a ! i) = w" using assms(1) by (simp add: is_array2_def list_all_length)
    then show ?thesis using True assms len by (simp add: nth_pad_end)
  next
    case False
    then show ?thesis using assms len by (simp add: nth_pad_end)
  qed
qed


lemma F_pad_shaped:
  assumes "is_tensor x c h w" "spatial_shape x = (h, w)" "0 \<le> int h + padh" "0 \<le> int w + padw"
  shows "\<exists>y. F_pad x padw padh = Inr y \<and> is_tensor y c (nat (int h + padh)) (nat (int w + padw)) \<and>
     (\<forall>k<c. \<forall>i<nat (int h + padh). \<forall>j<nat (int w + padw).
        y ! k ! i ! j = (if i < h \<and> j < w then x ! k ! i ! j else 0))"
proof -
  let ?y = "map (\<lambda>ch. pad_end padh (replicate (nat (int w + padw)) 0) (map (pad_end padw 0) ch)) x"
  have eq: "F_pad x padw padh = Inr ?y" using assms(2-4) by (simp add: F_pad_def)
  have chans: "length x = c" "\<forall>ch\<in>set x. is_array2 ch h w"
    using assms(1) by (auto simp: is_tensor_def list_all_iff)
  have t: "is_tensor ?y c (nat (int h + padh)) (nat (int w + padw))"
    using chans assms(3,4) by (auto simp: is_tensor_def list_all_iff intro: is_array2_pad)
  have n: "\<forall>k<c. \<forall>i<nat (int h + padh). \<forall>j<nat (int w + padw).
        ?y ! k ! i ! j = (if i < h \<and> j < w then x ! k ! i ! j else 0)"
    using chans by (auto simp: nth_array2_pad)
  show ?thesis using eq t n by blast
qed

lemma tensor_shape_normal:
  assumes "is_tensor x c h w"
  shows "\<exists>h' w'. is_tensor x c h' w' \<and> spatial_shape x = (h', w') \<and>
           (c = 0 \<or> (h' = h \<and> (h = 0 \<or> w' = w)))"
proof (cases x)
  case Nil
  then show ?thesis using assms by (auto simp: is_tensor_def spatial_shape_def)
next
  case (Cons ch chs)
  show ?thesis
  proof (cases "h = 0")
    case True
    then have "is_tensor x c 0 0" using assms by (auto simp: is_tensor_def is_array2_def list_all_iff)
    moreover have "spatial_shape x = (0, 0)"
      using assms True Cons by (auto simp: is_tensor_def is_array2_def spatial_shape_def shape2_def)
    ultimately show ?thesis using True by blast
  next
    case False
    then have "spatial_shape x = (h, w)"
      using assms Cons by (auto simp: is_tensor_def is_array2_def spatial_shape_def shape2_def split: list.splits)
    then show ?thesis using assms by blast
  qed
qed

lemma broadcast_channels_same:
  "length x = length ks \<Longrightarrow>
   broadcast_channels f x ks = Inr (map (\<lambda>c. map (map (\<lambda>v. f v (ks ! c))) (x ! c)) [0..<length x])"
  by (auto simp: broadcast_channels_def intro!: nth_equalityI)

lemma broadcast_normalized_eq:
  assumes "length x = length m" "length x = length s"
  shows "map (\<lambda>k. map (map (\<lambda>v. v / s ! k))
                (map (\<lambda>k. map (map (\<lambda>v. v - m ! k)) (x ! k)) [0..<length x] ! k))
           [0..<length x] = normalized x m s"
  unfolding normalized_def by (rule map_cong) (simp_all add: comp_def)

lemma broadcast_normalized:
  assumes "length x = length m" "length x = length s"
  shows "(case broadcast_channels (-) x m of Inl e \<Rightarrow> Inl e
          | Inr x1 \<Rightarrow> (case broadcast_channels (/) x1 s of Inl e \<Rightarrow> Inl e | Inr x2 \<Rightarrow> g x2))
         = g (normalized x m s)"
  using assms broadcast_normalized_eq [OF assms]
  by (simp add: broadcast_channels_same)

lemma preprocess_normalized:
  assumes "length x = length m" "length x = length s"
  shows "preprocess x m s T =
    (let (h, w) = spatial_shape (normalized x m s) in F_pad (normalized x m s) (T - int w) (T - int h))"
  unfolding preprocess_def using assms
  by (simp add: broadcast_normalized [where g = "\<lambda>x2. (let (h, w) = spatial_shape x2;
          padh = T - int h; padw = T - int w in F_pad x2 padw padh)"] Let_def)

lemma is_tensor_normalized:
  "is_tensor x c h w \<Longrightarrow> is_tensor (normalized x m s) c h w"
  by (auto simp: is_tensor_def is_array2_def list_all_length normalized_def)

lemma spatial_shape_normalized:
  "spatial_shape (normalized x m s) = spatial_shape x"
proof (cases x)
  case Nil
  then show ?thesis by (simp add: normalized_def spatial_shape_def)
next
  case (Cons ch chs)
  then obtain rest where "normalized x m s = map (map (\<lambda>v. (v - m ! 0) / s ! 0)) ch # rest"
    by (simp add: normalized_def upt_rec)
  then show ?thesis using Cons
    by (cases ch) (simp_all add: spatial_shape_def shape2_def)
qed

lemma nth_normalized:
  "is_tensor x c h w \<Longrightarrow> k < c \<Longrightarrow> i < h \<Longrightarrow> j < w \<Longrightarrow>
   normalized x m s ! k ! i ! j = (x ! k ! i ! j - m ! k) / s ! k"
  by (auto simp: is_tensor_def is_array2_def list_all_length normalized_def)

lemma preprocess_general:
  assumes "is_tensor x c h w" "length m = c" "length s = c" "0 \<le> T"
  shows "\<exists>y. preprocess x m s T = Inr y \<and> is_tensor y c (nat T) (nat T) \<and>
     (\<forall>k<c. \<forall>i<nat T. \<forall>j<nat T.
        y ! k ! i ! j = (if i < h \<and> j < w then (x ! k ! i ! j - m ! k) / s ! k else 0))"
proof -
  let ?n = "normalized x m s"
  have lens: "length x = length m" "length x = length s"
    using assms(1-3) by (simp_all add: is_tensor_def)
  obtain h' w' where hw: "is_tensor x c h' w'" "spatial_shape x = (h', w')"
      "c = 0 \<or> (h' = h \<and> (h = 0 \<or> w' = w))"
    using tensor_shape_normal [OF assms(1)] by blast
  have tn: "is_tensor ?n c h' w'" using hw(1) by (rule is_tensor_normalized)
  have sn: "spatial_shape ?n = (h', w')" using hw(2) by (simp add: spatial_shape_normalized)
  have pre: "preprocess x m s T = F_pad ?n (T - int w') (T - int h')"
    using lens sn by (simp add: preprocess_normalized)
  obtain y where y: "F_pad ?n (T - int w') (T - int h') = Inr y"
      "is_tensor y c (nat T) (nat T)"
      "\<forall>k<c. \<forall>i<nat T. \<forall>j<nat T. y ! k ! i ! j = (if i < h' \<and> j < w' then ?n ! k ! i ! j else 0)"
    using F_pad_shaped [OF tn sn, of "T - int h'" "T - int w'"] assms(4) by auto
  have "\<forall>k<c. \<forall>i<nat T. \<forall>j<nat T.
        y ! k ! i ! j = (if i < h \<and> j < w then (x ! k ! i ! j - m ! k) / s ! k else 0)"
  proof (intro allI impI)
    fix k i j assume b: "k < c" "i < nat T" "j < nat T"
    then have "c \<noteq> 0" by simp
    with hw(3) have e: "h' = h" "h = 0 \<or> w' = w" by auto
    show "y ! k ! i ! j = (if i < h \<and> j < w then (x ! k ! i ! j - m ! k) / s ! k else 0)"
      using y(3) b e nth_normalized [OF hw(1), of k i j m s] by auto
  qed
  then show ?thesis using pre y(1,2) by auto
qed

text \<open>
  C3. For a channel-first tensor with as many channels as there are constants and with
  height \<open>h \<le> T\<close> and width \<open>w \<le> T\<close>, \<open>preprocess\<close> returns a tensor of shape
  (C, T, T). Its entry at (c, i, j) is \<open>(x[c,i,j] - mean[c]) / std[c]\<close> for \<open>i < h\<close> and
  \<open>j < w\<close>, and zero everywhere else: the content keeps its indices, so it starts at (0, 0),
  and all padding lies below and to the right of it.
\<close>

theorem preprocess_pads_bottom_right:
  fixes x :: "'a::{minus,inverse,zero} tensor"
  assumes "is_tensor x c h w" "length mu = c" "length sd = c" "h \<le> T" "w \<le> T"
  shows "\<exists>y. preprocess x mu sd (int T) = Inr y \<and> is_tensor y c T T \<and>
     (\<forall>k<c. \<forall>i<h. \<forall>j<w. y ! k ! i ! j = (x ! k ! i ! j - mu ! k) / sd ! k) \<and>
     (\<forall>k<c. \<forall>i<T. \<forall>j<T. \<not> (i < h \<and> j < w) \<longrightarrow> y ! k ! i ! j = 0)"
proof -
  obtain y where y: "preprocess x mu sd (int T) = Inr y" "is_tensor y c T T"
      "\<forall>k<c. \<forall>i<T. \<forall>j<T.
         y ! k ! i ! j = (if i < h \<and> j < w then (x ! k ! i ! j - mu ! k) / sd ! k else 0)"
    using preprocess_general [OF assms(1-3), of "int T"] by auto
  have "\<forall>k<c. \<forall>i<h. \<forall>j<w. y ! k ! i ! j = (x ! k ! i ! j - mu ! k) / sd ! k"
    using y(3) assms(4,5) by auto
  moreover have "\<forall>k<c. \<forall>i<T. \<forall>j<T. \<not> (i < h \<and> j < w) \<longrightarrow> y ! k ! i ! j = 0"
    using y(3) by auto
  ultimately show ?thesis using y(1,2) by blast
qed

theorem preprocess_pads_bottom_right_witness:
  "is_tensor [[[1, 2]], [[3, 4]], [[5, 6 :: rat]]] 3 1 2 \<and>
   (\<exists>y. preprocess [[[1, 2]], [[3, 4]], [[5, 6 :: rat]]] [1, 1, 1] [2, 2, 2] (int 2) = Inr y \<and>
        is_tensor y 3 2 2 \<and> y ! 1 ! 0 ! 1 = (4 - 1) / 2 \<and> y ! 1 ! 1 ! 1 = 0)"
proof -
  let ?x = "[[[1, 2]], [[3, 4]], [[5, 6 :: rat]]]"
  have t: "is_tensor ?x 3 1 2" by (simp add: is_tensor_def is_array2_def)
  obtain y where y: "preprocess ?x [1, 1, 1] [2, 2, 2] (int 2) = Inr y" "is_tensor y 3 2 2"
      "\<forall>k<3. \<forall>i<1. \<forall>j<2. y ! k ! i ! j = (?x ! k ! i ! j - [1, 1, 1] ! k) / [2, 2, 2] ! k"
      "\<forall>k<3. \<forall>i<2. \<forall>j<2. \<not> (i < 1 \<and> j < 2) \<longrightarrow> y ! k ! i ! j = 0"
    using preprocess_pads_bottom_right [OF t, of "[1, 1, 1]" "[2, 2, 2]" 2] by auto
  have "y ! 1 ! 0 ! 1 = (4 - 1) / 2"
  proof -
    have "y ! 1 ! 0 ! 1 = (?x ! 1 ! 0 ! 1 - [1, 1, 1] ! 1) / [2, 2, 2] ! 1"
      using y(3) by (metis (full_types) less_numeral_extra(1) one_less_numeral_iff semiring_norm(76,77))
    then show ?thesis by simp
  qed
  moreover have "y ! 1 ! 1 ! 1 = 0" using y(4) by simp
  ultimately show ?thesis using t y(1,2) by blast
qed

section \<open>Properties of the call site and of the casts\<close>

lemma is_tensor_from_numpy:
  "is_array2 img h w \<Longrightarrow> is_tensor (from_numpy_permute img) 3 h w"
  by (simp add: is_tensor_def is_array2_def from_numpy_permute_def list_all_iff)

lemma sam_input_Inr: "sam_input img = Inr (sam_tensor img)"
proof -
  let ?x = "from_numpy_permute img"
  have l: "length ?x = length pixel_mean" "length ?x = length pixel_std"
    by (simp_all add: from_numpy_permute_def pixel_mean_def pixel_std_def)
  obtain h w where hw: "spatial_shape (normalized ?x pixel_mean pixel_std) = (h, w)"
    by (cases "spatial_shape (normalized ?x pixel_mean pixel_std)")
  show ?thesis
    unfolding sam_input_def preprocess_normalized [OF l] sam_tensor_def
    by (simp add: hw F_pad_def default_img_size_def)
qed

lemma nth_from_numpy:
  "is_array2 img h w \<Longrightarrow> i < h \<Longrightarrow> j < w \<Longrightarrow>
   from_numpy_permute img ! 0 ! i ! j = of_nat (unat (fst (img ! i ! j)))"
  by (auto simp: from_numpy_permute_def is_array2_def list_all_length split: prod.splits)

lemma shape2_array2: "is_array2 a h w \<Longrightarrow> shape2 a = (h, if h = 0 then 0 else w)"
  by (cases a) (auto simp: is_array2_def shape2_def)

lemma floor_half: "\<lfloor>(of_nat n :: rat) / 2\<rfloor> = int (n div 2)"
  using floor_divide_of_nat_eq [of n 2, where ?'a = rat] by simp

lemma astype_uint8_half:
  "n < 256 \<Longrightarrow> unat (astype_uint8 (of_nat n * 0.5 + v * 0 * 0.5)) = n div 2"
proof -
  assume n: "n < 256"
  have "(of_nat n :: rat) * 0.5 + v * 0 * 0.5 = of_nat n / 2" by simp
  then have "astype_uint8 (of_nat n * 0.5 + v * 0 * 0.5) = word_of_int (int (n div 2))"
    by (simp add: astype_uint8_def floor_half)
  moreover have "n div 2 < 256" using n by simp
  ultimately show ?thesis by (simp add: unat_of_nat)
qed

lemma astype_uint8_blend:
  "n < 256 \<Longrightarrow> unat (astype_uint8 (of_nat n * 0.5 + 1 * 255 * 0.5)) = (n + 255) div 2"
proof -
  assume n: "n < 256"
  have "(of_nat n :: rat) * 0.5 + 1 * 255 * 0.5 = of_nat (n + 255) / 2" by simp
  then have "astype_uint8 (of_nat n * 0.5 + 1 * 255 * 0.5) = word_of_int (int ((n + 255) div 2))"
    by (simp only: astype_uint8_def floor_half)
  moreover have "(n + 255) div 2 < 256" using n by simp
  ultimately show ?thesis by (simp add: unat_of_nat)
qed

lemma unat_uint8_less: "unat (v :: uint8) < 256"
  using unsigned_less [of v, where ?'a = nat] by simp

text \<open>
  C10. The call at lines 258-262 passes the tensor only, so \<open>preprocess\<close> works against its
  own default 1024 and never sees \<^verbatim>\<open>--image_size\<close>: for every rectangular image handed to
  it the result has shape (3, 1024, 1024). Entry (c, i, j) is the normalised pixel where the
  image has one and zero elsewhere, for \<open>i, j < 1024\<close>. An image higher or wider than 1024
  (a resize target above 1024) has a negative pad amount; its rows and columns from 1024 on
  are cut off, and where both sides reach 1024 nothing is padded at all.
\<close>

theorem sam_input_always_1024:
  assumes "is_array2 img h w"
  shows "\<exists>y. sam_input img = Inr y \<and> is_tensor y 3 1024 1024 \<and>
     (\<forall>k<3. \<forall>i<1024. \<forall>j<1024. y ! k ! i ! j =
        (if i < h \<and> j < w
         then (from_numpy_permute img ! k ! i ! j - pixel_mean ! k) / pixel_std ! k else 0)) \<and>
     (1024 < h \<longrightarrow> default_img_size - int h < 0) \<and>
     (1024 < w \<longrightarrow> default_img_size - int w < 0) \<and>
     (1024 \<le> h \<and> 1024 \<le> w \<longrightarrow>
        (\<forall>k<3. \<forall>i<1024. \<forall>j<1024. y ! k ! i ! j =
           (from_numpy_permute img ! k ! i ! j - pixel_mean ! k) / pixel_std ! k))"
proof -
  have t: "is_tensor (from_numpy_permute img) 3 h w" using assms by (rule is_tensor_from_numpy)
  have l: "length pixel_mean = 3" "length pixel_std = 3"
    by (simp_all add: pixel_mean_def pixel_std_def)
  obtain y where y: "sam_input img = Inr y" "is_tensor y 3 1024 1024"
     "\<forall>k<3. \<forall>i<1024. \<forall>j<1024. y ! k ! i ! j =
        (if i < h \<and> j < w
         then (from_numpy_permute img ! k ! i ! j - pixel_mean ! k) / pixel_std ! k else 0)"
    using preprocess_general [OF t l, of 1024] by (auto simp: sam_input_def default_img_size_def)
  have "1024 \<le> h \<and> 1024 \<le> w \<longrightarrow>
        (\<forall>k<3. \<forall>i<1024. \<forall>j<1024. y ! k ! i ! j =
           (from_numpy_permute img ! k ! i ! j - pixel_mean ! k) / pixel_std ! k)"
    using y(3) by auto
  then show ?thesis using y by (auto simp: default_img_size_def)
qed

theorem sam_input_always_1024_witness:
  "is_array2 (replicate 1025 [(1 :: uint8, 2 :: uint8, 3 :: uint8)]) 1025 1 \<and>
   (\<exists>y. sam_input (replicate 1025 [(1, 2, 3)]) = Inr y \<and> is_tensor y 3 1024 1024 \<and>
        default_img_size - int 1025 < 0)"
proof -
  have a: "is_array2 (replicate 1025 [(1 :: uint8, 2 :: uint8, 3 :: uint8)]) 1025 1"
    by (simp add: is_array2_def list_all_iff)
  obtain y where "sam_input (replicate 1025 [(1, 2, 3)]) = Inr y" "is_tensor y 3 1024 1024"
      "1024 < (1025 :: nat) \<longrightarrow> default_img_size - int 1025 < 0"
    using sam_input_always_1024 [OF a] by blast
  then show ?thesis using a by auto
qed

section \<open>Masks and compositing\<close>

lemma composite_bool:
  assumes "is_array2 image_np h w" "is_array2 m h w"
  shows "\<exists>vis. composite image_np (BoolMask m) = Inr vis \<and> is_array2 vis h w \<and>
    (\<forall>i<h. \<forall>j<w. vis ! i ! j =
       (if m ! i ! j then store_pixel (blend (image_np ! i ! j) 1) else image_np ! i ! j))"
proof -
  let ?vis = "map2 (\<lambda>(row, brow) mrow.
                   map2 (\<lambda>(p, q) b. if b then store_pixel q else p) (zip row brow) mrow)
                  (zip image_np (blended image_np (mask_values (BoolMask m)))) m"
  have sh: "shape2 m = shape2 image_np" using assms by (simp add: shape2_array2)
  have eq: "composite image_np (BoolMask m) = Inr ?vis"
    by (simp add: sh broadcastable_def)
  have len: "length image_np = h" "length m = h"
       "\<forall>i<h. length (image_np ! i) = w" "\<forall>i<h. length (m ! i) = w"
    using assms by (auto simp: is_array2_def list_all_length)
  have a: "is_array2 ?vis h w"
    using len by (auto simp: is_array2_def list_all_length blended_def)
  have n: "\<forall>i<h. \<forall>j<w. ?vis ! i ! j =
       (if m ! i ! j then store_pixel (blend (image_np ! i ! j) 1) else image_np ! i ! j)"
    using len by (auto simp: blended_def)
  show ?thesis using eq a n by blast
qed

lemma store_blend_one:
  "store_pixel (blend (r, g, b) 1) = (r', g', b') \<Longrightarrow>
   unat r' = (unat r + 255) div 2 \<and> unat g' = unat g div 2 \<and> unat b' = unat b div 2"
  using astype_uint8_blend [OF unat_uint8_less [of r]]
        astype_uint8_half [OF unat_uint8_less [of g], of 1]
        astype_uint8_half [OF unat_uint8_less [of b], of 1]
  by (auto simp: store_pixel_def blend_def)


text \<open>
  C7. The mask taken from a model answer is the comparison of each score with zero: the
  entry at (i, j) depends on the score at (i, j) alone, a score above zero gives \<open>True\<close>, a
  score of zero or below gives \<open>False\<close>.
\<close>

theorem threshold_is_strictly_positive:
  assumes "pred_masks = (pm # slices) # others" "i < length pm" "j < length (pm ! i)"
  shows "\<exists>b. select_mask image_np pred_masks = Inr (BoolMask b) \<and>
           length b = length pm \<and> length (b ! i) = length (pm ! i) \<and>
           (0 < pm ! i ! j \<longrightarrow> b ! i ! j) \<and> (pm ! i ! j \<le> 0 \<longrightarrow> \<not> b ! i ! j)"
  using assms by (auto simp: select_mask_def greater_zero_def)

theorem threshold_is_strictly_positive_witness:
  "\<exists>b. select_mask [] [[[[1, 0, - 1 / 2]]]] = Inr (BoolMask b) \<and> \<not> b ! 0 ! 1 \<and> b ! 0 ! 0 \<and> \<not> b ! 0 ! 2"
proof -
  let ?pm = "[[1, 0, - 1 / 2 :: rat]]"
  have t: "\<And>j. j < 3 \<Longrightarrow> \<exists>b. select_mask [] [[?pm]] = Inr (BoolMask b) \<and>
           length b = length ?pm \<and> length (b ! 0) = length (?pm ! 0) \<and>
           (0 < ?pm ! 0 ! j \<longrightarrow> b ! 0 ! j) \<and> (?pm ! 0 ! j \<le> 0 \<longrightarrow> \<not> b ! 0 ! j)"
    by (rule threshold_is_strictly_positive [where slices = "[]" and others = "[]"]) simp_all
  from t [of 0] t [of 1] t [of 2] show ?thesis by (auto simp: numeral_2_eq_2)
qed


text \<open>
  C5. With a \<open>bool\<close> mask of the image's shape, compositing succeeds and keeps the shape. A
  pixel under \<open>True\<close> becomes the half-and-half blend with the highlight colour (255, 0, 0),
  fractions dropped: \<open>(r + 255) div 2\<close>, \<open>g div 2\<close>, \<open>b div 2\<close>. A pixel under \<open>False\<close>
  keeps its value, so a mask without any \<open>True\<close> gives back the image.
\<close>

theorem compositing_changes_only_masked_pixels:
  assumes "is_array2 image_np h w" "is_array2 m h w"
  shows "\<exists>vis. composite image_np (BoolMask m) = Inr vis \<and> is_array2 vis h w \<and>
    (\<forall>i<h. \<forall>j<w.
       if m ! i ! j
       then (case (image_np ! i ! j, vis ! i ! j) of
               ((r, g, b), (r', g', b')) \<Rightarrow>
                 unat r' = (unat r + 255) div 2 \<and> unat g' = unat g div 2 \<and> unat b' = unat b div 2)
       else vis ! i ! j = image_np ! i ! j) \<and>
    ((\<forall>i<h. \<forall>j<w. \<not> m ! i ! j) \<longrightarrow> vis = image_np)"
proof -
  obtain vis where vis: "composite image_np (BoolMask m) = Inr vis" "is_array2 vis h w"
    "\<forall>i<h. \<forall>j<w. vis ! i ! j =
       (if m ! i ! j then store_pixel (blend (image_np ! i ! j) 1) else image_np ! i ! j)"
    using composite_bool [OF assms] by blast
  have p: "\<forall>i<h. \<forall>j<w.
       if m ! i ! j
       then (case (image_np ! i ! j, vis ! i ! j) of
               ((r, g, b), (r', g', b')) \<Rightarrow>
                 unat r' = (unat r + 255) div 2 \<and> unat g' = unat g div 2 \<and> unat b' = unat b div 2)
       else vis ! i ! j = image_np ! i ! j"
  proof (intro allI impI)
    fix i j assume b: "i < h" "j < w"
    show "if m ! i ! j
       then (case (image_np ! i ! j, vis ! i ! j) of
               ((r, g, b), (r', g', b')) \<Rightarrow>
                 unat r' = (unat r + 255) div 2 \<and> unat g' = unat g div 2 \<and> unat b' = unat b div 2)
       else vis ! i ! j = image_np ! i ! j"
    proof (cases "m ! i ! j")
      case True
      obtain r g bl where px: "image_np ! i ! j = (r, g, bl)" by (cases "image_np ! i ! j")
      obtain r' g' b' where vx: "vis ! i ! j = (r', g', b')" by (cases "vis ! i ! j")
      have "store_pixel (blend (r, g, bl) 1) = (r', g', b')"
        using vis(3) b True px vx by simp
      from store_blend_one [OF this] show ?thesis using True px vx by simp
    next
      case False
      then show ?thesis using vis(3) b by simp
    qed
  qed
  have q: "(\<forall>i<h. \<forall>j<w. \<not> m ! i ! j) \<longrightarrow> vis = image_np"
  proof
    assume f: "\<forall>i<h. \<forall>j<w. \<not> m ! i ! j"
    have len: "length vis = h" "length image_np = h"
      "\<forall>i<h. length (vis ! i) = w" "\<forall>i<h. length (image_np ! i) = w"
      using vis(2) assms(1) by (auto simp: is_array2_def list_all_length)
    show "vis = image_np"
    proof (rule nth_equalityI)
      show "length vis = length image_np" using len by simp
    next
      fix i assume "i < length vis"
      then have i: "i < h" using len by simp
      show "vis ! i = image_np ! i"
        using len i vis(3) f by (intro nth_equalityI) auto
    qed
  qed
  show ?thesis using vis(1,2) p q by blast
qed

theorem compositing_changes_only_masked_pixels_witness:
  "is_array2 [[(10 :: uint8, 20 :: uint8, 30 :: uint8), (1, 2, 3)]] 1 2 \<and>
   is_array2 [[False, False]] 1 2 \<and>
   composite [[(10, 20, 30), (1, 2, 3)]] (BoolMask [[False, False]])
     = Inr [[(10, 20, 30), (1, 2, 3)]]"
proof -
  let ?img = "[[(10 :: uint8, 20 :: uint8, 30 :: uint8), (1, 2, 3)]]"
  have a: "is_array2 ?img 1 2" by (simp add: is_array2_def)
  have b: "is_array2 [[False, False]] 1 2" by (simp add: is_array2_def)
  have f: "\<forall>i<1. \<forall>j<2. \<not> [[False, False]] ! i ! j"
    by (simp add: less_Suc_eq numeral_2_eq_2)
  obtain vis where "composite ?img (BoolMask [[False, False]]) = Inr vis"
      "(\<forall>i<1. \<forall>j<2. \<not> [[False, False]] ! i ! j) \<longrightarrow> vis = ?img"
    using compositing_changes_only_masked_pixels [OF a b] by blast
  then show ?thesis using a b f by blast
qed

section \<open>One pass of the loop\<close>

lemma run_model_eq:
  "run_model env a image_path =
     (case imread env image_path of
        None \<Rightarrow> Inl Cv2Error
      | Some image_src \<Rightarrow>
     if empty_array image_src then Inl Cv2Error
     else
     (case clip_preprocess env (cvtColor image_src) of
        Inl e \<Rightarrow> Inl e
      | Inr image_clip \<Rightarrow>
     (case apply_image env (image_size a) (cvtColor image_src) of
        Inl e \<Rightarrow> Inl e
      | Inr img \<Rightarrow>
     (case evaluate env image_clip (sam_tensor img) [shape2 img] [shape2 (cvtColor image_src)] of
        Inl e \<Rightarrow> Inl e
      | Inr pred_masks \<Rightarrow> Inr (cvtColor image_src, pred_masks)))))"
  by (simp add: run_model_def sam_input_Inr Let_def split: option.splits sum.splits)

lemma imwrite_ok: "\<not> empty_artifact art \<Longrightarrow> imwrite fs path art = Inr (fs @ [(path, art)])"
  by (simp add: imwrite_def)

lemma imwrite_append:
  "imwrite fs path art = (case imwrite [] path art of Inl e \<Rightarrow> Inl e | Inr new \<Rightarrow> Inr (fs @ new))"
  by (simp add: imwrite_def)

lemma empty_array_iff: "is_array2 arr h w \<Longrightarrow> empty_array arr = (h = 0 \<or> w = 0)"
  by (auto simp: empty_array_def shape2_array2)

lemma is_array2_cvtColor: "is_array2 (cvtColor img) h w = is_array2 img h w"
  by (simp add: cvtColor_def is_array2_def list_all_iff)

lemma shape2_cvtColor: "shape2 (cvtColor img) = shape2 img"
  by (cases img) (simp_all add: cvtColor_def shape2_def)

lemma empty_array_cvtColor: "empty_array (cvtColor img) = empty_array img"
  by (simp add: empty_array_def shape2_cvtColor)

lemma demo_empty: "\<not> empty_array demo_image"
  by (simp add: empty_array_def shape2_def demo_image_def)

lemma demo_cvt: "cvtColor demo_image = [[(10, 20, 30)], [(7, 7, 7)]]"
  by (simp add: cvtColor_def demo_image_def)

lemma demo_run: "run_model demo_env demo_args p = Inr ([[(10, 20, 30)], [(7, 7, 7)]], [])"
  by (simp add: run_model_eq demo_env_def demo_empty demo_cvt)

lemma demo_name: "image_name_of ''in/a.jpg'' = ''a''"
  by (simp add: image_name_of_def)

lemma demo_select:
  "select_mask [[(10, 20, 30)], [(7, 7, 7)]] [] = Inr (Uint8Mask [[0], [0]])"
  by (simp add: select_mask_def shape2_def np_zeros_def)

lemma demo_store:
  "store_pixel (blend (10, 20, 30) 0) = (5, 10, 15)"
  by (simp add: blend_def store_pixel_def astype_uint8_def)

lemma demo_composite:
  "composite [[(10, 20, 30)], [(7, 7, 7)]] (Uint8Mask [[0], [0]]) = Inr [[(5, 10, 15)], [(7, 7, 7)]]"
  by (simp add: shape2_def blended_def demo_store upt_rec)

lemma demo_out: "output_dir demo_args = ''out''"
  by (simp add: demo_args_def)

lemma demo_process:
  "process_image demo_env demo_args fs p =
     (fs @ [(''out/images/'' @ image_name_of p @ ''.png'', Color [[(10, 20, 30)], [(7, 7, 7)]]),
            (''out/masks/'' @ image_name_of p @ ''.png'', Gray [[0], [0]]),
            (''out/vis/'' @ image_name_of p @ ''.png'', Color [[(15, 10, 5)], [(7, 7, 7)]])], None)"
  by (simp add: process_image_def demo_run demo_select demo_composite demo_out os_path_join_def
      cvtColor_def imwrite_def empty_array_def shape2_def Let_def del: composite.simps)

text \<open>
  C1 on a concrete input: the model returns no mask for a two-row image. The mask file is
  all zero and has the image's size, but the zeros of line 282 are \<^verbatim>\<open>uint8\<close>, so
  line 297 indexes rows instead of pixels: every zero names row 0, and row 0 of the
  visualization is the halved row 0 of the image. The visualization written differs from
  the image read.
\<close>

theorem zero_masks_visualization_differs:
  "process_image demo_env demo_args [] ''in/a.jpg'' =
     ([(''out/images/a.png'', Color [[(10, 20, 30)], [(7, 7, 7)]]),
       (''out/masks/a.png'', Gray [[0], [0]]),
       (''out/vis/a.png'', Color [[(15, 10, 5)], [(7, 7, 7)]])], None)
   \<and> Color [[(15, 10, 5)], [(7, 7, 7)]] \<noteq> Color demo_image"
  by (simp add: demo_process demo_name demo_image_def)




lemma process_image_run_error:
  "run_model env a p = Inl e \<Longrightarrow> process_image env a fs p = (fs, Some e)"
  by (simp add: process_image_def)

lemma process_image_many:
  "run_model env a p = Inr (image_np, pred_masks) \<Longrightarrow> 1 < length pred_masks \<Longrightarrow>
   process_image env a fs p = (fs, Some (AssertionError (assert_message (image_name_of p))))"
  by (simp add: process_image_def)

lemma process_image_append:
  "process_image env a fs p =
     (fs @ fst (process_image env a [] p), snd (process_image env a [] p))"
  unfolding process_image_def Let_def
  by (auto simp: imwrite_def split: sum.splits prod.splits)

lemma main_loop_append:
  "main_loop env a fs (xs @ ys) =
     (case main_loop env a fs xs of
        (fs', Some e) \<Rightarrow> (fs', Some e)
      | (fs', None) \<Rightarrow> main_loop env a fs' ys)"
  by (induction xs arbitrary: fs) (auto split: prod.splits option.splits)

lemma main_loop_success:
  "\<forall>p\<in>set ps. snd (process_image env a [] p) = None \<Longrightarrow>
   main_loop env a fs ps = (fs @ concat (map (\<lambda>p. fst (process_image env a [] p)) ps), None)"
proof (induction ps arbitrary: fs)
  case Nil
  then show ?case by simp
next
  case (Cons p ps)
  have p: "process_image env a fs p = (fs @ fst (process_image env a [] p), None)"
    using Cons.prems process_image_append [of env a fs p] by simp
  show ?case using Cons.IH [of "fs @ fst (process_image env a [] p)"] Cons.prems
    by (simp add: p)
qed









lemma run_model_Inr:
  assumes "run_model env a p = Inr (image_np, pms)"
  shows "\<exists>src clip x rs. imread env p = Some src \<and> \<not> empty_array src \<and>
           image_np = cvtColor src \<and>
           evaluate env clip x rs [shape2 image_np] = Inr pms"
  using assms unfolding run_model_eq
  by (auto split: option.splits sum.splits if_splits)

lemma composite_zeros:
  assumes "is_array2 image_np h w" "0 < h"
  shows "\<exists>vis. composite image_np (Uint8Mask (np_zeros h w)) = Inr vis \<and> is_array2 vis h w"
proof -
  have sh: "shape2 image_np = (h, w)" using assms by (simp add: shape2_array2)
  have z: "shape2 (np_zeros h w) = (h, w)"
    using assms(2) by (cases h) (simp_all add: np_zeros_def shape2_def)
  have len: "length image_np = h" "\<forall>i<h. length (image_np ! i) = w"
    using assms(1) by (auto simp: is_array2_def list_all_length)
  have ok: "\<not> (\<exists>v \<in> set (concat (np_zeros h w)). length image_np \<le> unat v)"
    using assms(2) len by (auto simp: np_zeros_def)
  let ?vis = "map (\<lambda>i. if i \<in> unat ` set (concat (np_zeros h w))
                          then map store_pixel
                                 (blended image_np (mask_values (Uint8Mask (np_zeros h w))) ! i)
                          else image_np ! i) [0..<length image_np]"
  have eq: "composite image_np (Uint8Mask (np_zeros h w)) = Inr ?vis"
    using sh z ok by simp
  have "is_array2 ?vis h w"
    using len by (auto simp: is_array2_def list_all_length blended_def np_zeros_def)
  then show ?thesis using eq by blast
qed

lemma is_array2_np_zeros: "is_array2 (np_zeros h w) h w"
  by (simp add: np_zeros_def is_array2_def list_all_iff)

lemma is_array2_times_zeros: "is_array2 (times_255 (Uint8Mask (np_zeros h w))) h w"
  by (simp add: np_zeros_def is_array2_def list_all_iff)

lemma is_array2_greater_zero: "is_array2 pm h w \<Longrightarrow> is_array2 (greater_zero pm) h w"
  by (auto simp: greater_zero_def is_array2_def list_all_iff)

lemma is_array2_times_bool: "is_array2 b h w \<Longrightarrow> is_array2 (times_255 (BoolMask b)) h w"
  by (auto simp: is_array2_def list_all_iff)

lemma process_image_written:
  assumes run: "run_model env a p = Inr (image_np, pms)"
      and img: "is_array2 image_np h w" "0 < h" "0 < w"
      and masks: "\<forall>t\<in>set pms. \<forall>pm\<in>set t. is_array2 pm h w"
  shows "((\<exists>e. process_image env a fs p = (fs, Some e)) \<and>
            \<not> (pms = [] \<or> (\<exists>pm slices. pms = [pm # slices]))) \<or>
         ((\<exists>g v. process_image env a fs p =
             (fs @ [(os_path_join (output_dir a) ''images'' @ ''/'' @ image_name_of p @ ''.png'',
                     Color image_np),
                    (os_path_join (output_dir a) ''masks'' @ ''/'' @ image_name_of p @ ''.png'',
                     Gray g),
                    (os_path_join (output_dir a) ''vis'' @ ''/'' @ image_name_of p @ ''.png'',
                     Color v)], None) \<and> is_array2 g h w) \<and>
            (pms = [] \<or> (\<exists>pm slices. pms = [pm # slices])))"
proof -
  have ne: "\<not> empty_array image_np" using img by (simp add: empty_array_iff)
  have sh: "shape2 image_np = (h, w)" using img by (simp add: shape2_array2)
  consider (none) "pms = []" | (one) pm slices where "pms = [pm # slices]"
    | (noslice) "pms = [[]]" | (many) "1 < length pms"
    by (cases pms; cases "tl pms"; cases "hd pms") auto
  then show ?thesis
  proof cases
    case none
    obtain vis where vis: "composite image_np (Uint8Mask (np_zeros h w)) = Inr vis"
        "is_array2 vis h w"
      using composite_zeros [OF img(1,2)] by blast
    have e1: "\<not> empty_array (times_255 (Uint8Mask (np_zeros h w)))"
      using is_array2_times_zeros [of h w] img(2,3) by (simp add: empty_array_iff)
    have e2: "\<not> empty_array (cvtColor vis)"
      using vis(2) img(2,3) by (simp add: empty_array_cvtColor empty_array_iff)
    have "process_image env a fs p =
             (fs @ [(os_path_join (output_dir a) ''images'' @ ''/'' @ image_name_of p @ ''.png'',
                     Color image_np),
                    (os_path_join (output_dir a) ''masks'' @ ''/'' @ image_name_of p @ ''.png'',
                     Gray (times_255 (Uint8Mask (np_zeros h w)))),
                    (os_path_join (output_dir a) ''vis'' @ ''/'' @ image_name_of p @ ''.png'',
                     Color (cvtColor vis))], None)"
      using run none vis(1) ne e1 e2
      by (simp add: process_image_def select_mask_def sh Let_def imwrite_def
               del: composite.simps)
    then show ?thesis using none is_array2_times_zeros [of h w] by blast
  next
    case one
    have pm: "is_array2 pm h w" using masks one by simp
    obtain vis where vis: "composite image_np (BoolMask (greater_zero pm)) = Inr vis"
        "is_array2 vis h w"
      using composite_bool [OF img(1) is_array2_greater_zero [OF pm]] by blast
    have g: "is_array2 (times_255 (BoolMask (greater_zero pm))) h w"
      using pm by (intro is_array2_times_bool is_array2_greater_zero)
    have e1: "\<not> empty_array (times_255 (BoolMask (greater_zero pm)))"
      using g img(2,3) by (simp add: empty_array_iff)
    have e2: "\<not> empty_array (cvtColor vis)"
      using vis(2) img(2,3) by (simp add: empty_array_cvtColor empty_array_iff)
    have "process_image env a fs p =
             (fs @ [(os_path_join (output_dir a) ''images'' @ ''/'' @ image_name_of p @ ''.png'',
                     Color image_np),
                    (os_path_join (output_dir a) ''masks'' @ ''/'' @ image_name_of p @ ''.png'',
                     Gray (times_255 (BoolMask (greater_zero pm)))),
                    (os_path_join (output_dir a) ''vis'' @ ''/'' @ image_name_of p @ ''.png'',
                     Color (cvtColor vis))], None)"
      using run one vis(1) ne e1 e2
      by (simp add: process_image_def select_mask_def Let_def imwrite_def
               del: composite.simps times_255.simps)
    then show ?thesis using one g by blast
  next
    case noslice
    then have "process_image env a fs p = (fs, Some IndexError)"
      using run by (simp add: process_image_def select_mask_def)
    then show ?thesis using noslice by auto
  next
    case many
    then have "process_image env a fs p
        = (fs, Some (AssertionError (assert_message (image_name_of p))))"
      using run by (simp add: process_image_many)
    moreover have "\<not> (pms = [] \<or> (\<exists>pm slices. pms = [pm # slices]))" using many by auto
    ultimately show ?thesis by blast
  qed
qed

text \<open>
  C6. Let the image read be a rectangular \<open>h\<close> x \<open>w\<close> array, and let the model keep its
  contract: whatever masks it returns have the height and width it was given as the original
  size. Then on every path through the loop body each array written to a mask file has
  height \<open>h\<close> and width \<open>w\<close>. A pass that ends without an exception has written one, and
  the pass does end so both when the model returns no mask and when it returns one tensor
  with a first mask.
\<close>

theorem written_mask_has_image_dimensions:
  assumes "imread env p = Some image_src"
      and "is_array2 image_src h w"
      and "\<forall>clip x rs oh ow pms. evaluate env clip x rs [(oh, ow)] = Inr pms \<longrightarrow>
             (\<forall>t\<in>set pms. \<forall>pm\<in>set t. is_array2 pm oh ow)"
  shows "\<exists>new. fst (process_image env a fs p) = fs @ new \<and>
           (\<forall>path g. (path, Gray g) \<in> set new \<longrightarrow> is_array2 g h w) \<and>
           (snd (process_image env a fs p) = None \<longrightarrow> (\<exists>path g. (path, Gray g) \<in> set new)) \<and>
           (\<forall>image_np pms. run_model env a p = Inr (image_np, pms) \<and>
                (pms = [] \<or> (\<exists>pm slices. pms = [pm # slices])) \<longrightarrow>
                snd (process_image env a fs p) = None)"
proof (cases "run_model env a p")
  case (Inl e)
  then have "process_image env a fs p = (fs, Some e)" by (rule process_image_run_error)
  then show ?thesis using Inl by auto
next
  case (Inr r)
  obtain image_np pms where r: "run_model env a p = Inr (image_np, pms)"
    using Inr by (cases r) auto
  obtain clip x rs where m: "\<not> empty_array image_src" "image_np = cvtColor image_src"
      "evaluate env clip x rs [shape2 image_np] = Inr pms"
    using run_model_Inr [OF r] assms(1) by auto
  have img: "is_array2 image_np h w" using assms(2) m(2) by (simp add: is_array2_cvtColor)
  have pos: "0 < h" "0 < w" using m(1) assms(2) by (simp_all add: empty_array_iff)
  have sh: "shape2 image_np = (h, w)" using img pos by (simp add: shape2_array2)
  have masks: "\<forall>t\<in>set pms. \<forall>pm\<in>set t. is_array2 pm h w"
    using assms(3) m(3) unfolding sh by blast
  let ?ok = "pms = [] \<or> (\<exists>pm slices. pms = [pm # slices])"
  from process_image_written [OF r img pos masks, of fs]
  consider (stop) e where "process_image env a fs p = (fs, Some e)" "\<not> ?ok"
    | (wrote) g v where "process_image env a fs p =
             (fs @ [(os_path_join (output_dir a) ''images'' @ ''/'' @ image_name_of p @ ''.png'',
                     Color image_np),
                    (os_path_join (output_dir a) ''masks'' @ ''/'' @ image_name_of p @ ''.png'',
                     Gray g),
                    (os_path_join (output_dir a) ''vis'' @ ''/'' @ image_name_of p @ ''.png'',
                     Color v)], None)" "is_array2 g h w"
    by (elim disjE conjE exE) (erule meta_allE, erule meta_impE, assumption, assumption)+
  then show ?thesis
  proof cases
    case stop
    have "fst (process_image env a fs p) = fs @ []" using stop(1) by simp
    moreover have "snd (process_image env a fs p) \<noteq> None" using stop(1) by simp
    ultimately show ?thesis using r stop(2) by (intro exI [of _ "[]"]) auto
  next
    case wrote
    let ?new = "[(os_path_join (output_dir a) ''images'' @ ''/'' @ image_name_of p @ ''.png'',
                     Color image_np),
                    (os_path_join (output_dir a) ''masks'' @ ''/'' @ image_name_of p @ ''.png'',
                     Gray g),
                    (os_path_join (output_dir a) ''vis'' @ ''/'' @ image_name_of p @ ''.png'',
                     Color v)]"
    have "fst (process_image env a fs p) = fs @ ?new" using wrote(1) by simp
    moreover have "snd (process_image env a fs p) = None" using wrote(1) by simp
    moreover have "\<forall>path g'. (path, Gray g') \<in> set ?new \<longrightarrow> is_array2 g' h w"
      using wrote(2) by simp
    moreover have "\<exists>path g'. (path, Gray g') \<in> set ?new" by auto
    ultimately show ?thesis by (intro exI [of _ ?new]) simp
  qed
qed

lemma sized_run:
  "run_model sized_env demo_args p = Inr ([[(10, 20, 30)], [(7, 7, 7)]], [[[[1], [1]]]])"
  by (simp add: run_model_eq sized_env_def demo_env_def demo_empty demo_cvt shape2_def
      numeral_2_eq_2)

theorem written_mask_has_image_dimensions_witness:
  "imread sized_env ''in/a.jpg'' = Some demo_image \<and> is_array2 demo_image 2 1 \<and>
   (\<exists>new. fst (process_image sized_env demo_args [] ''in/a.jpg'') = new \<and>
      snd (process_image sized_env demo_args [] ''in/a.jpg'') = None \<and>
      (\<exists>path g. (path, Gray g) \<in> set new \<and> is_array2 g 2 1))"
proof -
  have i: "imread sized_env ''in/a.jpg'' = Some demo_image"
    by (simp add: sized_env_def demo_env_def)
  have a: "is_array2 demo_image 2 1" by (simp add: is_array2_def demo_image_def)
  have c: "\<forall>clip x rs oh ow pms. evaluate sized_env clip x rs [(oh, ow)] = Inr pms \<longrightarrow>
             (\<forall>t\<in>set pms. \<forall>pm\<in>set t. is_array2 pm oh ow)"
    by (auto simp: sized_env_def is_array2_def list_all_iff)
  have "\<exists>new. fst (process_image sized_env demo_args [] ''in/a.jpg'') = [] @ new \<and>
           (\<forall>path g. (path, Gray g) \<in> set new \<longrightarrow> is_array2 g 2 1) \<and>
           (snd (process_image sized_env demo_args [] ''in/a.jpg'') = None \<longrightarrow>
              (\<exists>path g. (path, Gray g) \<in> set new)) \<and>
           (\<forall>image_np pms. run_model sized_env demo_args ''in/a.jpg'' = Inr (image_np, pms) \<and>
                (pms = [] \<or> (\<exists>pm slices. pms = [pm # slices])) \<longrightarrow>
                snd (process_image sized_env demo_args [] ''in/a.jpg'') = None)"
    by (rule written_mask_has_image_dimensions [OF i a c])
  then obtain new where n: "fst (process_image sized_env demo_args [] ''in/a.jpg'') = new"
      "\<forall>path g. (path, Gray g) \<in> set new \<longrightarrow> is_array2 g 2 1"
      "snd (process_image sized_env demo_args [] ''in/a.jpg'') = None \<longrightarrow>
         (\<exists>path g. (path, Gray g) \<in> set new)"
      "\<forall>image_np pms. run_model sized_env demo_args ''in/a.jpg'' = Inr (image_np, pms) \<and>
                (pms = [] \<or> (\<exists>pm slices. pms = [pm # slices])) \<longrightarrow>
                snd (process_image sized_env demo_args [] ''in/a.jpg'') = None"
    by auto
  have s: "snd (process_image sized_env demo_args [] ''in/a.jpg'') = None"
    using n(4) sized_run [of "''in/a.jpg''"] by blast
  then obtain path g where "(path, Gray g) \<in> set new" using n(3) by blast
  then show ?thesis using i a n(1,2) s by auto
qed

section \<open>The whole run\<close>

lemma img_paths_demo: "img_paths ''in'' [''b.jpg'', ''a.jpg''] = [''in/a.jpg'', ''in/b.jpg'']"
  by (simp add: img_paths_def os_path_join_def)

lemma two_run_a: "run_model two_env demo_args ''in/a.jpg'' = Inl (ExternalError ''model'')"
  by (simp add: run_model_eq two_env_def cvtColor_def shape2_def empty_array_def)

lemma two_run_b: "run_model two_env demo_args ''in/b.jpg'' = Inr ([[(6, 4, 2), (12, 10, 8)]], [])"
  by (simp add: run_model_eq two_env_def cvtColor_def shape2_def empty_array_def)

lemma two_select: "select_mask [[(6, 4, 2), (12, 10, 8)]] [] = Inr (Uint8Mask [[0, 0]])"
  by (simp add: select_mask_def shape2_def np_zeros_def numeral_2_eq_2)

lemma two_composite:
  "composite [[(6, 4, 2), (12, 10, 8)]] (Uint8Mask [[0, 0]]) = Inr [[(3, 2, 1), (6, 5, 4)]]"
  by (simp add: shape2_def blended_def blend_def store_pixel_def astype_uint8_def)

lemma two_process_b:
  "process_image two_env demo_args [] ''in/b.jpg'' =
     ([(''out/images/b.png'', Color [[(6, 4, 2), (12, 10, 8)]]),
       (''out/masks/b.png'', Gray [[0, 0]]),
       (''out/vis/b.png'', Color [[(1, 2, 3), (4, 5, 6)]])], None)"
  by (simp add: process_image_def two_run_b image_name_of_def two_select
      two_composite demo_out os_path_join_def cvtColor_def imwrite_def empty_array_def shape2_def
      del: composite.simps)

text \<open>
  C2 as stated fails: in a directory of \<^verbatim>\<open>a.jpg\<close> and \<^verbatim>\<open>b.jpg\<close> where the model raises
  on the first, the run ends with that exception and writes nothing, although
  \<^verbatim>\<open>b.jpg\<close> on its own is processed and written.
\<close>

theorem failure_stops_later_images:
  "main two_env demo_args [''b.jpg'', ''a.jpg''] = ([], Some (ExternalError ''model'')) \<and>
   process_image two_env demo_args [] ''in/b.jpg'' =
     ([(''out/images/b.png'', Color [[(6, 4, 2), (12, 10, 8)]]),
       (''out/masks/b.png'', Gray [[0, 0]]),
       (''out/vis/b.png'', Color [[(1, 2, 3), (4, 5, 6)]])], None)"
proof -
  have "input_dir demo_args = ''in''" by (simp add: demo_args_def)
  then have "main two_env demo_args [''b.jpg'', ''a.jpg'']
               = main_loop two_env demo_args [] [''in/a.jpg'', ''in/b.jpg'']"
    by (simp add: main_def img_paths_demo)
  also have "\<dots> = ([], Some (ExternalError ''model''))"
    by (simp add: process_image_run_error [OF two_run_a])
  finally show ?thesis using two_process_b by simp
qed

text \<open>
  C2 as the code has it. The loop body has no handler, so an exception in one image ends
  the run at that image: the result of the run is that exception, the files are those written
  up to it, and no later image is looked at. When the exception comes from reading,
  resizing, normalising or the model call, or is the rejection of more than one mask, the
  failing image has written nothing, so the files are exactly those of the images before it.
\<close>

theorem failure_ends_the_run:
  assumes "main_loop env a fs before = (fs1, None)"
      and "process_image env a fs1 p = (fs2, Some e)"
  shows "main_loop env a fs (before @ p # after) = (fs2, Some e) \<and>
         ((\<exists>e'. run_model env a p = Inl e') \<or>
          (\<exists>image_np pred_masks. run_model env a p = Inr (image_np, pred_masks)
                                  \<and> 1 < length pred_masks)
          \<longrightarrow> fs2 = fs1)"
proof -
  have "main_loop env a fs (before @ p # after) = (fs2, Some e)"
    using assms by (simp add: main_loop_append)
  moreover have "(\<exists>e'. run_model env a p = Inl e') \<or>
          (\<exists>image_np pred_masks. run_model env a p = Inr (image_np, pred_masks)
                                  \<and> 1 < length pred_masks)
          \<longrightarrow> fs2 = fs1"
    using assms(2) by (auto simp: process_image_run_error process_image_many)
  ultimately show ?thesis by blast
qed

theorem failure_ends_the_run_witness:
  "main_loop two_env demo_args [] [''in/a.jpg'', ''in/b.jpg'']
     = ([], Some (ExternalError ''model''))"
proof -
  have b: "main_loop two_env demo_args [] [] = ([], None)" by simp
  have p: "process_image two_env demo_args [] ''in/a.jpg'' = ([], Some (ExternalError ''model''))"
    by (rule process_image_run_error [OF two_run_a])
  from failure_ends_the_run [OF b p, of "[''in/b.jpg'']"] show ?thesis by simp
qed

section \<open>The order of the images\<close>

lemma append_le_iff: "(p @ a \<le> p @ b) = (a \<le> (b :: 'a::linorder list))"
  by (induction p) simp_all

lemma os_path_join_prefix:
  "CHR ''/'' \<notin> set b \<Longrightarrow>
   os_path_join a b = (if a = [] \<or> last a = CHR ''/'' then a else a @ ''/'') @ b"
  by (cases b) (auto simp: os_path_join_def)

lemma sort_map_prefix: "sort (map ((@) p) xs) = map ((@) p) (sort (xs :: 'a::linorder list list))"
proof (rule properties_for_sort)
  show "mset (map ((@) p) (sort xs)) = mset (map ((@) p) xs)" by simp
  show "sorted (map ((@) p) (sort xs))"
    by (simp add: sorted_map append_le_iff)
qed

lemma sort_mset_cong: "mset ys = mset xs \<Longrightarrow> sort ys = sort (xs :: 'a::linorder list)"
  by (rule properties_for_sort) simp_all

lemma img_paths_sorted_names:
  assumes "\<forall>n\<in>set xs. CHR ''/'' \<notin> set n"
  shows "img_paths d xs = map (os_path_join d) (sort xs)"
proof -
  let ?p = "if d = [] \<or> last d = CHR ''/'' then d else d @ ''/''"
  have 1: "map (os_path_join d) xs = map ((@) ?p) xs"
    using assms by (intro map_cong) (simp_all add: os_path_join_prefix)
  have 2: "map (os_path_join d) (sort xs) = map ((@) ?p) (sort xs)"
    using assms by (intro map_cong) (simp_all add: os_path_join_prefix)
  show ?thesis unfolding img_paths_def 1 2 by (rule sort_map_prefix)
qed

lemma img_paths_mset:
  assumes "mset ys = mset xs"
  shows "img_paths d ys = img_paths d xs"
proof -
  have "mset (map (os_path_join d) ys) = mset (map (os_path_join d) xs)"
    using assms by simp
  then show ?thesis unfolding img_paths_def by (rule sort_mset_cong)
qed

text \<open>
  C8. Let two listings hold the same file names, in whatever order \<^verbatim>\<open>os.listdir\<close>
  returns them. The run over either listing is the loop over one list of paths: the file
  names in lexicographically sorted order, each behind the input directory. When every
  image is processed without an exception, the files written are the files of the first
  name in sorted order, then those of the second, and so on.
\<close>

theorem images_processed_in_sorted_order:
  assumes "mset ys = mset xs" "\<forall>n\<in>set xs. CHR ''/'' \<notin> set n"
  shows "main env a ys = main_loop env a [] (map (os_path_join (input_dir a)) (sort xs)) \<and>
         ((\<forall>n\<in>set xs. snd (process_image env a [] (os_path_join (input_dir a) n)) = None) \<longrightarrow>
          main env a ys =
            (concat (map (\<lambda>n. fst (process_image env a [] (os_path_join (input_dir a) n)))
                       (sort xs)), None))"
proof -
  let ?ps = "map (os_path_join (input_dir a)) (sort xs)"
  have e: "img_paths (input_dir a) ys = ?ps"
    using img_paths_mset [OF assms(1)] img_paths_sorted_names [OF assms(2)] by simp
  have m: "main env a ys = main_loop env a [] ?ps" by (simp add: main_def e)
  have "main_loop env a [] ?ps =
          (concat (map (\<lambda>n. fst (process_image env a [] (os_path_join (input_dir a) n)))
                     (sort xs)), None)"
    if "\<forall>n\<in>set xs. snd (process_image env a [] (os_path_join (input_dir a) n)) = None"
  proof -
    have "\<forall>p\<in>set ?ps. snd (process_image env a [] p) = None" using that by simp
    from main_loop_success [OF this, of "[]"] show ?thesis by (simp add: comp_def)
  qed
  then show ?thesis using m by simp
qed

theorem images_processed_in_sorted_order_witness:
  "mset [''b.jpg'', ''a.jpg''] = mset [''a.jpg'', ''b.jpg''] \<and>
   map fst (fst (main demo_env demo_args [''b.jpg'', ''a.jpg''])) =
     [''out/images/a.png'', ''out/masks/a.png'', ''out/vis/a.png'',
      ''out/images/b.png'', ''out/masks/b.png'', ''out/vis/b.png'']"
proof -
  have m: "mset [''b.jpg'', ''a.jpg''] = mset [''a.jpg'', ''b.jpg'']" by simp
  have n: "\<forall>n\<in>set [''a.jpg'', ''b.jpg'']. CHR ''/'' \<notin> set n" by simp
  have s: "\<forall>n\<in>set [''a.jpg'', ''b.jpg''].
             snd (process_image demo_env demo_args [] (os_path_join (input_dir demo_args) n)) = None"
    by (simp add: demo_process)
  have "main demo_env demo_args [''b.jpg'', ''a.jpg''] =
          (concat (map (\<lambda>n. fst (process_image demo_env demo_args []
                                    (os_path_join (input_dir demo_args) n)))
                       (sort [''a.jpg'', ''b.jpg''])), None)"
    using images_processed_in_sorted_order [OF m n, of demo_env demo_args] s by blast
  moreover have "input_dir demo_args = ''in''" by (simp add: demo_args_def)
  ultimately show ?thesis
    by (simp add: demo_process os_path_join_def image_name_of_def)
qed

section \<open>Properties of the geometric transform\<close>

lemma to_pixels_of_nat: "to_pixels rnd (of_nat n) = n"
proof (cases rnd)
  case RoundDown
  then show ?thesis by simp
next
  case RoundNearest
  have "\<lfloor>(of_nat n :: rat) + 1 / 2\<rfloor> = int n"
    by (rule floor_unique) simp_all
  then show ?thesis using RoundNearest by simp
qed

lemma to_pixels_mono: "q \<le> r \<Longrightarrow> to_pixels rnd q \<le> to_pixels rnd r"
  by (cases rnd) (auto intro!: nat_mono floor_mono)

lemma to_pixels_close:
  assumes "0 \<le> q"
  shows "\<bar>of_nat (to_pixels rnd q) - q\<bar> < 1"
proof (cases rnd)
  case RoundDown
  have "0 \<le> \<lfloor>q\<rfloor>" using assms by simp
  then have "(of_nat (nat \<lfloor>q\<rfloor>) :: rat) = of_int \<lfloor>q\<rfloor>" by simp
  then show ?thesis using RoundDown by simp linarith
next
  case RoundNearest
  have "0 \<le> \<lfloor>q + 1 / 2\<rfloor>" using assms by simp
  then have "(of_nat (nat \<lfloor>q + 1 / 2\<rfloor>) :: rat) = of_int \<lfloor>q + 1 / 2\<rfloor>" by simp
  then show ?thesis using RoundNearest by simp linarith
qed

lemma scaled_bounds:
  assumes "0 < m" "n \<le> m"
  shows "0 \<le> (of_nat n :: rat) * (of_nat T / of_nat m)"
    and "(of_nat n :: rat) * (of_nat T / of_nat m) \<le> of_nat T"
proof -
  show "0 \<le> (of_nat n :: rat) * (of_nat T / of_nat m)" by simp
  have "(of_nat n :: rat) / of_nat m \<le> 1" using assms by simp
  then have "(of_nat n :: rat) / of_nat m * of_nat T \<le> 1 * of_nat T"
    by (intro mult_right_mono) simp_all
  then show "(of_nat n :: rat) * (of_nat T / of_nat m) \<le> of_nat T" by simp
qed

lemma scaled_longest:
  assumes "0 < m"
  shows "(of_nat m :: rat) * (of_nat T / of_nat m) = of_nat T"
  using assms by simp

text \<open>
  C9. For an image with a height and a width above zero the transform returns a shape, under
  either rounding. The longer side of that shape is exactly \<open>T\<close>, and each side differs
  from the exact product of the original side with \<open>s = T / max(height, width)\<close> by less
  than one pixel, so the aspect ratio is kept up to rounding.
\<close>

theorem resize_longest_side_reaches_target:
  assumes "0 < height" "0 < width"
  shows "\<exists>rh rw. resized_shape rnd T height width = Inr (rh, rw) \<and> max rh rw = T \<and>
     \<bar>of_nat rh - of_nat height * scale_factor T height width\<bar> < 1 \<and>
     \<bar>of_nat rw - of_nat width * scale_factor T height width\<bar> < 1"
proof -
  let ?m = "max height width"
  let ?s = "scale_factor T height width"
  let ?rh = "to_pixels rnd (of_nat height * ?s)"
  let ?rw = "to_pixels rnd (of_nat width * ?s)"
  have m: "0 < ?m" "height \<le> ?m" "width \<le> ?m" using assms by simp_all
  have s: "?s = of_nat T / of_nat ?m" by (simp add: scale_factor_def)
  have eq: "resized_shape rnd T height width = Inr (?rh, ?rw)"
    using assms by (simp add: resized_shape_def)
  have hb: "0 \<le> of_nat height * ?s" "of_nat height * ?s \<le> of_nat T"
    unfolding s using scaled_bounds [OF m(1,2)] by blast+
  have wb: "0 \<le> of_nat width * ?s" "of_nat width * ?s \<le> of_nat T"
    unfolding s using scaled_bounds [OF m(1,3)] by blast+
  have le: "?rh \<le> T" "?rw \<le> T"
    using to_pixels_mono [OF hb(2), of rnd] to_pixels_mono [OF wb(2), of rnd]
    by (simp_all add: to_pixels_of_nat)
  have "?rh = T \<or> ?rw = T"
  proof (cases "width \<le> height")
    case True
    then have "?m = height" by simp
    then have "of_nat height * ?s = of_nat T"
      unfolding s using scaled_longest [OF m(1), of T] by simp
    then show ?thesis by (simp add: to_pixels_of_nat)
  next
    case False
    then have "?m = width" by simp
    then have "of_nat width * ?s = of_nat T"
      unfolding s using scaled_longest [OF m(1), of T] by simp
    then show ?thesis by (simp add: to_pixels_of_nat)
  qed
  then have mx: "max ?rh ?rw = T" using le by auto
  show ?thesis
    using eq mx to_pixels_close [OF hb(1), of rnd] to_pixels_close [OF wb(1), of rnd] by blast
qed

theorem resize_longest_side_reaches_target_witness:
  "(0 :: nat) < 480 \<and> (0 :: nat) < 640 \<and>
   (\<exists>rh rw. resized_shape RoundNearest 1024 480 640 = Inr (rh, rw) \<and> max rh rw = 1024) \<and>
   resized_shape RoundNearest 1024 480 640 = Inr (768, 1024)"
proof -
  have h: "(0 :: nat) < 480" and w: "(0 :: nat) < 640" by simp_all
  have s: "scale_factor 1024 480 640 = 8 / 5"
    by (simp add: scale_factor_def)
  have f: "\<lfloor>(1537 :: rat) / 2\<rfloor> = 768" "\<lfloor>(2049 :: rat) / 2\<rfloor> = 1024"
    using floor_divide_of_int_eq [of 1537 2, where ?'a = rat]
          floor_divide_of_int_eq [of 2049 2, where ?'a = rat] by simp_all
  have v: "resized_shape RoundNearest 1024 480 640 = Inr (768, 1024)"
    by (simp add: resized_shape_def s f)
  obtain rh rw where "resized_shape RoundNearest 1024 480 640 = Inr (rh, rw)" "max rh rw = 1024"
    using resize_longest_side_reaches_target [OF h w, of RoundNearest 1024] by blast
  then show ?thesis using v by simp
qed

end
